theory Spec2Isabelle
  imports Main "HOL-Library.Char_ord" "HOL-Library.List_Lexorder" "HOL-Library.Multiset"
begin

section \<open>Subdomain enumeration pipeline of backend/app.py\<close>

text \<open>
  The development embeds the subdomain finder of \<^verbatim>\<open>backend/app.py\<close>: the cache
  helpers, \<^verbatim>\<open>extract_and_clean_subdomains\<close>, \<^verbatim>\<open>verify_dns\<close>,
  \<^verbatim>\<open>calculate_confidence\<close> and the route \<^verbatim>\<open>subdomain_finder_enhanced\<close>.

  Python strings are modelled as \<^typ>\<open>string\<close>: a character is a code point below 256
  (U+0000 to U+00FF), and the string methods below are the Python ones on these
  characters. Strings with a character from U+0100 on are outside the model.
\<close>

subsection \<open>Python string methods\<close>

text \<open>\<^verbatim>\<open>str.isspace\<close> on one character: tab, line feed, vertical tab, form feed, carriage
  return, the four separators 0x1C..0x1F, the space, the next-line control U+0085 and the
  no-break space U+00A0.\<close>

definition isspace :: "char \<Rightarrow> bool" where
  "isspace c = (c \<in> set [CHR 0x09, CHR 0x0A, CHR 0x0B, CHR 0x0C, CHR 0x0D,
                           CHR 0x1C, CHR 0x1D, CHR 0x1E, CHR 0x1F, CHR 0x20,
                           CHR 0x85, CHR 0xA0])"

text \<open>\<^verbatim>\<open>s.strip()\<close>: whitespace removed at both ends.\<close>

definition strip :: "string \<Rightarrow> string" where
  "strip s = rev (dropWhile isspace (rev (dropWhile isspace s)))"

text \<open>\<^verbatim>\<open>s.rstrip(chars)\<close>: every trailing character that occurs in \<open>chars\<close> removed.\<close>

definition rstrip_chars :: "string \<Rightarrow> string \<Rightarrow> string" where
  "rstrip_chars chars s = rev (dropWhile (\<lambda>c. c \<in> set chars) (rev s))"

text \<open>The ASCII letters and digits.\<close>

definition is_ascii_upper :: "char \<Rightarrow> bool" where
  "is_ascii_upper c = (CHR ''A'' \<le> c \<and> c \<le> CHR ''Z'')"

definition is_ascii_lower :: "char \<Rightarrow> bool" where
  "is_ascii_lower c = (CHR ''a'' \<le> c \<and> c \<le> CHR ''z'')"

definition is_ascii_digit :: "char \<Rightarrow> bool" where
  "is_ascii_digit c = (CHR ''0'' \<le> c \<and> c \<le> CHR ''9'')"

text \<open>The characters that \<^verbatim>\<open>str.lower\<close> changes: A to Z, and the capital letters U+00C0
  to U+00DE without the multiplication sign U+00D7. Each one maps to the character 32
  code points above it.\<close>

definition is_upper :: "char \<Rightarrow> bool" where
  "is_upper c =
     (is_ascii_upper c \<or> (CHR 0xC0 \<le> c \<and> c \<le> CHR 0xD6) \<or> (CHR 0xD8 \<le> c \<and> c \<le> CHR 0xDE))"

definition lower_char :: "char \<Rightarrow> char" where
  "lower_char c = (if is_upper c then char_of (of_char c + (32::nat)) else c)"

text \<open>\<^verbatim>\<open>s.lower()\<close>.\<close>

definition lower :: "string \<Rightarrow> string" where
  "lower s = map lower_char s"

text \<open>The characters for which \<^verbatim>\<open>str.isdigit\<close> holds: 0 to 9 and the superscripts two,
  three and one (U+00B2, U+00B3, U+00B9).\<close>

definition is_digit :: "char \<Rightarrow> bool" where
  "is_digit c = (is_ascii_digit c \<or> c \<in> set [CHR 0xB2, CHR 0xB3, CHR 0xB9])"

text \<open>\<^verbatim>\<open>s.isdigit()\<close>: at least one character, and every character a digit.\<close>

definition isdigit :: "string \<Rightarrow> bool" where
  "isdigit s = (s \<noteq> [] \<and> list_all is_digit s)"

text \<open>\<^verbatim>\<open>s.split(sep)\<close> for a separator of one character: the result is never empty,
  and an empty piece stands between two adjacent separators.\<close>

fun split_on :: "char \<Rightarrow> string \<Rightarrow> string list" where
  "split_on sep [] = [[]]"
| "split_on sep (x # xs) =
     (if x = sep then [] # split_on sep xs
      else (let r = split_on sep xs in (x # hd r) # tl r))"

text \<open>\<^verbatim>\<open>s.startswith(p)\<close> and \<^verbatim>\<open>s.endswith(p)\<close>.\<close>

definition startswith :: "string \<Rightarrow> string \<Rightarrow> bool" where
  "startswith s p = (take (length p) s = p)"

definition endswith :: "string \<Rightarrow> string \<Rightarrow> bool" where
  "endswith s p = (length p \<le> length s \<and> drop (length s - length p) s = p)"

text \<open>\<^verbatim>\<open>sub in s\<close>: \<open>sub\<close> occurs in \<open>s\<close> as a contiguous piece.\<close>

fun str_in :: "string \<Rightarrow> string \<Rightarrow> bool" where
  "str_in sub [] = (sub = [])"
| "str_in sub (x # xs) = (startswith (x # xs) sub \<or> str_in sub xs)"

text \<open>\<^verbatim>\<open>s.replace(old, new)\<close>: the occurrences of \<open>old\<close> are replaced from the left,
  without overlap; an empty \<open>old\<close> matches before every character and at the end.\<close>

function replace_str :: "string \<Rightarrow> string \<Rightarrow> string \<Rightarrow> string" where
  "replace_str old new s =
     (if old = [] then new @ concat (map (\<lambda>c. c # new) s)
      else if s = [] then []
      else if startswith s old then new @ replace_str old new (drop (length old) s)
      else hd s # replace_str old new (tl s))"
  by pat_completeness auto
termination
  by (relation "measure (\<lambda>(old, new, s). length s)") auto

declare replace_str.simps [simp del]

subsection \<open>The hostname pattern\<close>

text \<open>
  \<^verbatim>\<open>HOSTNAME_REGEX\<close> and \<^verbatim>\<open>SAFE_HOSTNAME_RE\<close> are the same pattern, compiled with
  \<^verbatim>\<open>re.IGNORECASE\<close>:
  \<^verbatim>\<open>^(?=.{1,253}$)([a-z0-9](?:[a-z0-9-]{0,61}[a-z0-9])?)(?:\.[a-z0-9](?:[a-z0-9-]{0,61}[a-z0-9])?)*$\<close>
  The class \<^verbatim>\<open>[a-z0-9]\<close> is \<open>is_alnum\<close> (below U+0100 ignoring case adds A to Z
  only); one label
  \<^verbatim>\<open>[a-z0-9](?:[a-z0-9-]{0,61}[a-z0-9])?\<close> is \<open>label_ok\<close>; the subject is a
  dot-separated sequence of labels. The look-ahead bounds the length by 253 and, as
  \<^verbatim>\<open>.\<close> does not match a line feed, excludes one. Python's \<^verbatim>\<open>$\<close> also matches just
  before a line feed that ends the subject, so one final line feed is tolerated.
\<close>

definition is_alnum :: "char \<Rightarrow> bool" where
  "is_alnum c = (is_ascii_lower c \<or> is_ascii_upper c \<or> is_ascii_digit c)"

definition label_ok :: "string \<Rightarrow> bool" where
  "label_ok l =
     (case l of
        [] \<Rightarrow> False
      | c # r \<Rightarrow> is_alnum c \<and>
          (r = [] \<or>
           (length (butlast r) \<le> 61 \<and>
            list_all (\<lambda>d. is_alnum d \<or> d = CHR ''-'') (butlast r) \<and>
            is_alnum (last r))))"

definition HOSTNAME_REGEX_match :: "string \<Rightarrow> bool" where
  "HOSTNAME_REGEX_match s =
     (let t = (if s \<noteq> [] \<and> last s = CHR 0x0A then butlast s else s)
      in 1 \<le> length t \<and> length t \<le> 253 \<and> CHR 0x0A \<notin> set t \<and>
         list_all label_ok (split_on CHR ''.'' t))"

subsection \<open>DNS verification and confidence scoring\<close>

text \<open>
  The resolver is outside the program. \<open>resolver_ok\<close> says whether
  \<^verbatim>\<open>dns.resolver.Resolver()\<close> is constructed without raising; \<open>resolve_ok h t\<close> says
  whether \<^verbatim>\<open>resolver.resolve(h, t)\<close> returns answers (\<open>True\<close>) or raises, a timeout
  included (\<open>False\<close>).
\<close>

record dns_env =
  resolver_ok :: bool
  resolve_ok :: "string \<Rightarrow> string \<Rightarrow> bool"

text \<open>
  \<^verbatim>\<open>verify_dns\<close> returns \<^verbatim>\<open>(resolves, records)\<close>; the model pairs the result with
  the queries that were issued, in order, each a pair of host name and record type.
  The three inner \<^verbatim>\<open>try\<close> blocks are the three steps; the outer one covers the
  construction of the resolver.
\<close>

definition verify_dns :: "dns_env \<Rightarrow> string \<Rightarrow> (bool \<times> string list) \<times> (string \<times> string) list" where
  "verify_dns env hostname =
     (if startswith hostname ''*.'' then ((False, []), [])
      else if \<not> resolver_ok env then ((False, []), [])
      else
        let r1 = (if resolve_ok env hostname ''A''
                  then (True, [''A'']) else (False, []));
            r2 = (if resolve_ok env hostname ''AAAA''
                  then (True, if ''AAAA'' \<notin> set (snd r1) then snd r1 @ [''AAAA''] else snd r1)
                  else r1);
            r3 = (if resolve_ok env hostname ''CNAME''
                  then (True, if ''CNAME'' \<notin> set (snd r2) then snd r2 @ [''CNAME''] else snd r2)
                  else r2)
        in (r3, [(hostname, ''A''), (hostname, ''AAAA''), (hostname, ''CNAME'')]))"

definition calculate_confidence :: "bool \<Rightarrow> string \<Rightarrow> string" where
  "calculate_confidence resolves hostname =
     (if startswith hostname ''*.'' then ''medium''
      else if resolves then ''high''
      else
        let labels = split_on CHR ''.'' hostname in
        if length labels > 0 \<and> isdigit (hd labels) then ''low''
        else ''medium'')"

subsection \<open>Candidate extraction\<close>

text \<open>The dictionary stored for one cleaned host.\<close>

record subdomain_info =
  host :: string
  wildcard :: bool
  resolves :: bool
  records :: "string list"
  confidence :: string

text \<open>One crt.sh entry is a JSON object with string fields; \<open>dict_get\<close> is
  \<^verbatim>\<open>entry.get(key, default)\<close>.\<close>

type_synonym ct_entry = "string \<rightharpoonup> string"

definition dict_get :: "('k \<rightharpoonup> 'v) \<Rightarrow> 'k \<Rightarrow> 'v \<Rightarrow> 'v" where
  "dict_get d k dflt = (case d k of None \<Rightarrow> dflt | Some v \<Rightarrow> v)"

text \<open>
  The state of the two loops of \<^verbatim>\<open>extract_and_clean_subdomains\<close>: the set
  \<^verbatim>\<open>raw_candidates\<close> and the dictionary \<^verbatim>\<open>cleaned_subdomains\<close>, an association
  list in insertion order. \<open>process_line\<close> is the body of the inner loop, from
  \<^verbatim>\<open>line = line.strip()\<close> on; every \<^verbatim>\<open>continue\<close> returns the state reached so far.
\<close>

type_synonym cleaned = "(string \<times> subdomain_info) list"

definition process_line :: "string \<Rightarrow> string \<Rightarrow> string set \<times> cleaned \<Rightarrow> string set \<times> cleaned" where
  "process_line domain line0 st =
     (let line = strip line0 in
      if line = [] then st
      else
        let raw_candidates = insert line (fst st);
            cleaned_subdomains = snd st
        in
        if str_in '' '' line \<or> str_in ''@'' line \<or> str_in '' - '' line
        then (raw_candidates, cleaned_subdomains)
        else
          let normalized = rstrip_chars ''.'' (strip (lower line));
              is_wildcard = startswith normalized ''*.'';
              host_value = normalized;
              normalized_for_check = (if is_wildcard then drop 2 normalized else normalized)
          in
          if \<not> HOSTNAME_REGEX_match normalized_for_check
          then (raw_candidates, cleaned_subdomains)
          else
            let domain_lower = lower domain in
            if normalized_for_check \<noteq> domain_lower \<and>
               \<not> endswith normalized_for_check (''.'' @ domain_lower)
            then (raw_candidates, cleaned_subdomains)
            else if map_of cleaned_subdomains host_value = None
            then (raw_candidates,
                  cleaned_subdomains @
                    [(host_value,
                      \<lparr>host = host_value, wildcard = is_wildcard, resolves = False,
                       records = [], confidence = ''medium''\<rparr>)])
            else (raw_candidates, cleaned_subdomains))"

text \<open>The body of the outer loop: one entry, its \<^verbatim>\<open>name_value\<close> split at line feeds.\<close>

definition process_entry :: "string \<Rightarrow> ct_entry \<Rightarrow> string set \<times> cleaned \<Rightarrow> string set \<times> cleaned" where
  "process_entry domain entry st =
     (let name_value = strip (dict_get entry ''name_value'' '''') in
      if name_value = [] then st
      else fold (process_line domain) (split_on CHR 0x0A name_value) st)"

definition extract_and_clean_subdomains :: "ct_entry list \<Rightarrow> string \<Rightarrow> nat \<times> cleaned" where
  "extract_and_clean_subdomains raw_data domain =
     (let st = fold (process_entry domain) raw_data ({}, [])
      in (card (fst st), snd st))"

text \<open>\<^verbatim>\<open>verify_one\<close>, the task submitted for each candidate, with the queries it issued.\<close>

definition verify_one :: "dns_env \<Rightarrow> subdomain_info \<Rightarrow> subdomain_info \<times> (string \<times> string) list" where
  "verify_one env subdomain_info =
     (let hostname = host subdomain_info;
          v = verify_dns env hostname
      in (subdomain_info\<lparr>resolves := fst (fst v), records := snd (fst v),
                          confidence := calculate_confidence (fst (fst v)) hostname\<rparr>,
          snd v))"

subsection \<open>The result cache\<close>

text \<open>
  A naive \<^verbatim>\<open>datetime\<close> is a number of microseconds; \<^verbatim>\<open>datetime.fromisoformat\<close> is a
  parameter, \<open>None\<close> when it raises. Subtracting an aware value from the naive
  \<^verbatim>\<open>datetime.now()\<close> raises, which \<^verbatim>\<open>is_cache_valid\<close> catches like a failed parse.
\<close>

datatype pydatetime = Naive int | Aware int int

definition CACHE_DURATION_HOURS :: int where
  "CACHE_DURATION_HOURS = 24"

definition timedelta :: "int \<Rightarrow> int \<Rightarrow> int" where
  "timedelta hours minutes = hours * 3600000000 + minutes * 60000000"

definition is_cache_valid :: "(string \<Rightarrow> pydatetime option) \<Rightarrow> int \<Rightarrow> string \<Rightarrow> bool" where
  "is_cache_valid fromisoformat now timestamp_str =
     (case fromisoformat timestamp_str of
        None \<Rightarrow> False
      | Some (Aware t off) \<Rightarrow> False
      | Some (Naive cached_time) \<Rightarrow> now - cached_time < timedelta CACHE_DURATION_HOURS 0)"

record report =
  domain :: string
  total_raw :: nat
  total_clean :: nat
  subdomains :: "subdomain_info list"

text \<open>One value of the cache dictionary: the keys \<^verbatim>\<open>timestamp\<close> and \<^verbatim>\<open>data\<close>, either of
  which a file not written by this program may lack.\<close>

record cache_entry =
  timestamp :: "string option"
  data :: "report option"

type_synonym cache = "string \<rightharpoonup> cache_entry"

text \<open>The cache file: absent, present but not loadable as JSON, or holding a dictionary.\<close>

datatype cache_file = NoFile | Unreadable | Content cache

definition load_cache :: "cache_file \<Rightarrow> cache" where
  "load_cache f = (case f of NoFile \<Rightarrow> Map.empty | Unreadable \<Rightarrow> Map.empty | Content c \<Rightarrow> c)"

text \<open>\<^verbatim>\<open>save_cache\<close> swallows every failure: when the file cannot be opened it stays as it
  was, when the dump fails after the file was truncated it is left unreadable.\<close>

datatype write_outcome = WriteOk | OpenFails | DumpFails

definition save_cache :: "write_outcome \<Rightarrow> cache \<Rightarrow> cache_file \<Rightarrow> cache_file" where
  "save_cache outcome cache_data f =
     (case outcome of WriteOk \<Rightarrow> Content cache_data | OpenFails \<Rightarrow> f | DumpFails \<Rightarrow> Unreadable)"

subsection \<open>The route\<close>

definition sanitize_hostname :: "string \<Rightarrow> string option" where
  "sanitize_hostname v =
     (if v = [] then None
      else
        let candidate = lower (strip v);
            candidate = hd (split_on CHR ''/''
                          (replace_str ''http://'' [] (replace_str ''https://'' [] candidate)));
            candidate = hd (split_on CHR '':'' candidate)
        in if HOSTNAME_REGEX_match candidate then Some candidate else None)"

text \<open>A response is the JSON body with its status, as Flask's \<^verbatim>\<open>(jsonify(...), status)\<close>.\<close>

datatype body = JError string | JReport report | JReportError report string

type_synonym response = "body \<times> nat"

text \<open>
  The environment of one request: the clock read by \<^verbatim>\<open>is_cache_valid\<close> and the clock
  read when the entry is stored, \<^verbatim>\<open>datetime.fromisoformat\<close> and \<^verbatim>\<open>isoformat\<close>, the
  outcome of the \<^verbatim>\<open>try\<close> block around \<^verbatim>\<open>requests.get\<close> for a URL (the message of the
  exception raised by \<^verbatim>\<open>requests.get\<close>, \<^verbatim>\<open>raise_for_status\<close> or \<^verbatim>\<open>resp.json\<close>, or the
  decoded entries), the resolver and the outcome of writing the cache file.
\<close>

datatype fetch_result = FetchRaised string | Fetched "ct_entry list"

record env =
  now :: int
  now_store :: int
  fromisoformat :: "string \<Rightarrow> pydatetime option"
  isoformat :: "int \<Rightarrow> string"
  http_get :: "string \<Rightarrow> fetch_result"
  dns :: dns_env
  cache_write :: write_outcome

text \<open>The state a request can change or add to: the cache file, the URLs fetched and the
  DNS queries issued.\<close>

record world =
  cache_file :: cache_file
  fetch_log :: "string list"
  dns_log :: "(string \<times> string) list"

text \<open>The request body up to the normalised domain: a 400 response or the domain.\<close>

definition normalize_request :: "string option \<Rightarrow> response + string" where
  "normalize_request req =
     (let domain = lower (strip (case req of None \<Rightarrow> [] | Some d \<Rightarrow> d)) in
      if domain = []
      then Inl (JError ''Please provide a valid domain name (e.g., example.com)'', 400)
      else
        case sanitize_hostname domain of
          None \<Rightarrow> Inl (JError ''Invalid domain format. Please provide a valid domain name.'', 400)
        | Some sanitized_domain \<Rightarrow>
            let domain = sanitized_domain;
                domain = hd (split_on CHR ''/''
                           (replace_str ''https://'' [] (replace_str ''http://'' [] domain)));
                domain = hd (split_on CHR '':'' domain)
            in Inr domain)"

text \<open>The cache check: a miss, the stored report of a fresh entry, or a fresh entry
  without \<^verbatim>\<open>data\<close>, where \<^verbatim>\<open>cached_entry["data"]\<close> raises \<^verbatim>\<open>KeyError\<close>.\<close>

datatype lookup = Miss | Hit report | HitKeyError

definition cache_lookup :: "env \<Rightarrow> cache \<Rightarrow> string \<Rightarrow> lookup" where
  "cache_lookup e cache cache_key =
     (case cache cache_key of
        None \<Rightarrow> Miss
      | Some cached_entry \<Rightarrow>
          if is_cache_valid (fromisoformat e) (now e)
               (case timestamp cached_entry of None \<Rightarrow> [] | Some t \<Rightarrow> t)
          then (case data cached_entry of None \<Rightarrow> HitKeyError | Some d \<Rightarrow> Hit d)
          else Miss)"

text \<open>The verification of all candidates, the sort and the report
  (\<^verbatim>\<open>response_data\<close>), with the DNS queries issued. The tasks run in a pool and are
  collected as they complete; the model collects them in the order of submission, and
  the sort by host follows (the sorted list does not depend on the order of collection,
  see \<open>collection_order_irrelevant\<close> below).\<close>

definition fresh_report :: "dns_env \<Rightarrow> string \<Rightarrow> ct_entry list \<Rightarrow> report \<times> (string \<times> string) list" where
  "fresh_report d qdomain raw_data =
     (let ex = extract_and_clean_subdomains raw_data qdomain;
          subdomain_list = map snd (snd ex);
          done = map (verify_one d) subdomain_list;
          verified_subdomains = sort_key host (map fst done)
      in (\<lparr>domain = qdomain, total_raw = fst ex,
           total_clean = length verified_subdomains,
           subdomains = verified_subdomains\<rparr>,
          concat (map snd done)))"

definition subdomain_finder_enhanced :: "env \<Rightarrow> string option \<Rightarrow> world \<Rightarrow> response \<times> world" where
  "subdomain_finder_enhanced e req w =
     (case normalize_request req of
        Inl resp \<Rightarrow> (resp, w)
      | Inr qdomain \<Rightarrow>
          let cache = load_cache (cache_file w);
              cache_key = ''subdomains_'' @ qdomain
          in
          case cache_lookup e cache cache_key of
            Hit stored \<Rightarrow> ((JReport stored, 200), w)
          | HitKeyError \<Rightarrow>
              ((JError [CHR 0x27, CHR ''d'', CHR ''a'', CHR ''t'', CHR ''a'', CHR 0x27], 500), w)
          | Miss \<Rightarrow>
              let url = ''https://crt.sh/?q=%.'' @ qdomain @ ''&output=json'';
                  w1 = w\<lparr>fetch_log := fetch_log w @ [url]\<rparr>
              in
              case http_get e url of
                FetchRaised msg \<Rightarrow>
                  ((JReportError
                      \<lparr>domain = qdomain, total_raw = 0, total_clean = 0, subdomains = []\<rparr>
                      (''Failed to fetch from crt.sh: '' @ msg), 500), w1)
              | Fetched raw_data \<Rightarrow>
                  let fr = fresh_report (dns e) qdomain raw_data;
                      response_data = fst fr;
                      cache' = cache(cache_key \<mapsto>
                                 \<lparr>timestamp = Some (isoformat e (now_store e)),
                                  data = Some response_data\<rparr>)
                  in ((JReport response_data, 200),
                      w1\<lparr>dns_log := dns_log w1 @ snd fr,
                         cache_file := save_cache (cache_write e) cache' (cache_file w1)\<rparr>))"

section \<open>Notions used in the properties\<close>

text \<open>The first dot-separated label of a host, and what it means for a label to consist
  only of digits, read as the decimal digits: it has at least one character and each one
  is one of 0 to 9.\<close>

definition first_label :: "string \<Rightarrow> string" where
  "first_label h = takeWhile (\<lambda>c. c \<noteq> CHR ''.'') h"

definition all_digits :: "string \<Rightarrow> bool" where
  "all_digits s = (s \<noteq> [] \<and> list_all (\<lambda>c. c \<in> set ''0123456789'') s)"

text \<open>The confidence scorer as the specification words it.\<close>

definition confidence_spec :: "bool \<Rightarrow> string \<Rightarrow> string" where
  "confidence_spec res h =
     (if startswith h ''*.'' then ''medium''
      else if res then ''high''
      else if all_digits (first_label h) then ''low''
      else ''medium'')"

text \<open>The same with the digits of \<^verbatim>\<open>str.isdigit\<close>: below U+0100 the decimal digits and
  the three superscript digits, listed one by one.\<close>

definition all_isdigit :: "string \<Rightarrow> bool" where
  "all_isdigit s =
     (s \<noteq> [] \<and> list_all (\<lambda>c. c \<in> set (''0123456789'' @ [CHR 0xB2, CHR 0xB3, CHR 0xB9])) s)"

definition confidence_isdigit :: "bool \<Rightarrow> string \<Rightarrow> string" where
  "confidence_isdigit res h =
     (if startswith h ''*.'' then ''medium''
      else if res then ''high''
      else if all_isdigit (first_label h) then ''low''
      else ''medium'')"

text \<open>A character is ASCII: its code point is below 128.\<close>

definition is_ascii :: "char \<Rightarrow> bool" where
  "is_ascii c = (c \<le> CHR 0x7F)"

text \<open>A host whose first label is the two characters U+00B2 and U+00B3, the superscripts
  two and three, followed by \<^verbatim>\<open>.example.com\<close>.\<close>

definition superscript_host :: string where
  "superscript_host = [CHR 0xB2, CHR 0xB3] @ ''.example.com''"

text \<open>An entry of the candidate map is well formed: its key is its host, the host is
  lowercase and does not end in a dot, and the wildcard flag says whether the host starts
  with \<^verbatim>\<open>*.\<close>.\<close>

definition candidate_ok :: "string \<times> subdomain_info \<Rightarrow> bool" where
  "candidate_ok kv =
     (fst kv = host (snd kv) \<and> lower (fst kv) = fst kv \<and> \<not> endswith (fst kv) ''.'' \<and>
      wildcard (snd kv) = startswith (fst kv) ''*.'')"

text \<open>A host is contained in a domain: it is the domain or ends with a dot and the domain.\<close>

definition contained :: "string \<Rightarrow> string \<Rightarrow> bool" where
  "contained d h = (h = d \<or> endswith h (''.'' @ d))"

definition clean_inv :: "string \<Rightarrow> string \<times> subdomain_info \<Rightarrow> bool" where
  "clean_inv d kv = (candidate_ok kv \<and> contained (lower d) (fst kv))"

text \<open>The lexicographic order on strings that ignores case.\<close>

definition ci_le :: "string \<Rightarrow> string \<Rightarrow> bool" where
  "ci_le a b = (lower a \<le> lower b)"

subsection \<open>Example inputs\<close>

text \<open>The three raw entries of the end-to-end scenario, each an object with its
  \<^verbatim>\<open>name_value\<close>.\<close>

definition scenario_entries :: "ct_entry list" where
  "scenario_entries =
     [[''name_value'' \<mapsto> ''www.example.com\<newline>mail.example.com''],
      [''name_value'' \<mapsto> ''bad entry with space''],
      [''name_value'' \<mapsto> ''*.example.com'']]"

text \<open>An environment in which crt.sh answers for \<^verbatim>\<open>example.com\<close> with the scenario
  entries and fails for every other URL, and only the A record of
  \<^verbatim>\<open>www.example.com\<close> resolves; an empty world; and a world whose cache holds a report
  for \<^verbatim>\<open>example.com\<close> stored one hour before the clock of the environment.\<close>

definition demo_dns :: dns_env where
  "demo_dns = \<lparr>resolver_ok = True,
               resolve_ok = (\<lambda>h t. h = ''www.example.com'' \<and> t = ''A'')\<rparr>"

definition demo_env :: env where
  "demo_env =
     \<lparr>now = 1700003600000000,
      now_store = 1700003601000000,
      fromisoformat = (\<lambda>s. if s = ''2023-11-14T22:13:20''
                            then Some (Naive 1700000000000000) else None),
      isoformat = (\<lambda>t. ''2023-11-14T23:13:21''),
      http_get = (\<lambda>u. if u = ''https://crt.sh/?q=%.example.com&output=json''
                       then Fetched scenario_entries
                       else FetchRaised ''HTTPSConnectionPool: Max retries exceeded''),
      dns = demo_dns,
      cache_write = WriteOk\<rparr>"

definition demo_world :: world where
  "demo_world = \<lparr>cache_file = NoFile, fetch_log = [], dns_log = []\<rparr>"

definition demo_stored :: report where
  "demo_stored =
     \<lparr>domain = ''example.com'', total_raw = 1, total_clean = 1,
      subdomains = [\<lparr>host = ''www.example.com'', wildcard = False, resolves = True,
                     records = [''A''], confidence = ''high''\<rparr>]\<rparr>"

definition demo_cached_world :: world where
  "demo_cached_world =
     \<lparr>cache_file = Content [''subdomains_example.com'' \<mapsto>
                      \<lparr>timestamp = Some ''2023-11-14T22:13:20'', data = Some demo_stored\<rparr>],
      fetch_log = [], dns_log = []\<rparr>"

section \<open>Auxiliary facts\<close>

lemma is_upper_code:
  "is_upper c =
     ((65 \<le> (of_char c :: nat) \<and> (of_char c :: nat) \<le> 90) \<or>
      (192 \<le> (of_char c :: nat) \<and> (of_char c :: nat) \<le> 214) \<or>
      (216 \<le> (of_char c :: nat) \<and> (of_char c :: nat) \<le> 222))"
  by (simp add: is_upper_def is_ascii_upper_def less_eq_char_def)

lemma lower_char_not_upper: "\<not> is_upper (lower_char c)"
proof (cases "is_upper c")
  case True
  then have "(of_char c :: nat) + 32 < 256"
    unfolding is_upper_code by arith
  then have "(of_char (char_of ((of_char c :: nat) + 32)) :: nat) = of_char c + 32"
    by simp
  with True show ?thesis
    unfolding lower_char_def is_upper_code by (simp only: if_True) arith
next
  case False
  then show ?thesis by (simp add: lower_char_def)
qed

lemma lower_char_fix: "lower_char c = c \<longleftrightarrow> \<not> is_upper c"
  by (metis lower_char_not_upper lower_char_def)

lemma lower_id_iff: "lower s = s \<longleftrightarrow> (\<forall>c\<in>set s. \<not> is_upper c)"
  by (induction s) (auto simp: lower_def lower_char_fix)

lemma lower_lower: "lower (lower s) = lower s"
  unfolding lower_id_iff by (simp add: lower_def lower_char_not_upper)

lemma set_strip: "set (strip s) \<subseteq> set s"
  by (auto simp: strip_def dest!: set_dropWhileD)

lemma set_rstrip_chars: "set (rstrip_chars cs s) \<subseteq> set s"
  by (auto simp: rstrip_chars_def dest!: set_dropWhileD)

lemma lower_normalized: "lower (rstrip_chars cs (strip (lower s))) = rstrip_chars cs (strip (lower s))"
proof -
  have "\<forall>c\<in>set (lower s). \<not> is_upper c"
    by (simp add: lower_def lower_char_not_upper)
  then have "\<forall>c\<in>set (rstrip_chars cs (strip (lower s))). \<not> is_upper c"
    using set_strip set_rstrip_chars by blast
  then show ?thesis by (simp add: lower_id_iff)
qed

lemma endswith_single: "endswith s [c] \<longleftrightarrow> s \<noteq> [] \<and> last s = c"
  by (cases s rule: rev_cases) (auto simp: endswith_def)

lemma rstrip_no_trailing: "\<not> endswith (rstrip_chars ''.'' s) ''.''"
proof
  let ?r = "dropWhile (\<lambda>c. c \<in> set ''.'') (rev s)"
  assume "endswith (rstrip_chars ''.'' s) ''.''"
  then have ne: "?r \<noteq> []" and l: "last (rev ?r) = CHR ''.''"
    by (simp_all add: endswith_single rstrip_chars_def)
  from ne have "hd ?r \<notin> set ''.''"
    by (rule hd_dropWhile)
  moreover from ne l have "hd ?r = CHR ''.''"
    by (simp add: last_rev)
  ultimately show False by simp
qed

lemma endswith_append: "endswith s p \<Longrightarrow> endswith (q @ s) p"
  by (auto simp: endswith_def)

lemma endswith_wild: "endswith (''*.'' @ d) (''.'' @ d)"
  by (simp add: endswith_def)

lemma startswith_split: "startswith s ''*.'' \<Longrightarrow> s = ''*.'' @ drop 2 s"
proof -
  assume "startswith s ''*.''"
  then have "take 2 s = ''*.''" by (simp add: startswith_def numeral_2_eq_2)
  then show ?thesis using append_take_drop_id[of 2 s] by simp
qed

lemma contained_wild:
  assumes "startswith n ''*.''" and "drop 2 n = dl \<or> endswith (drop 2 n) (''.'' @ dl)"
  shows "contained dl n"
proof -
  from assms(1) have n: "n = ''*.'' @ drop 2 n" by (rule startswith_split)
  from assms(2) have "endswith (''*.'' @ drop 2 n) (''.'' @ dl)"
  proof
    assume "drop 2 n = dl"
    then show ?thesis using endswith_wild[of dl] by simp
  next
    assume "endswith (drop 2 n) (''.'' @ dl)"
    then show ?thesis by (rule endswith_append)
  qed
  with n show ?thesis unfolding contained_def by metis
qed

lemma new_entry_inv:
  assumes "n = rstrip_chars ''.'' (strip (lower l))"
    and "nfc = (if startswith n ''*.'' then drop 2 n else n)"
    and "\<not> (nfc \<noteq> lower d \<and> \<not> endswith nfc (''.'' @ lower d))"
  shows "clean_inv d (n, \<lparr>host = n, wildcard = startswith n ''*.'', resolves = False,
                          records = [], confidence = ''medium''\<rparr>)"
proof -
  have "lower n = n" unfolding assms(1) by (rule lower_normalized)
  moreover have "\<not> endswith n ''.''" unfolding assms(1) by (rule rstrip_no_trailing)
  moreover have "contained (lower d) n"
  proof (cases "startswith n ''*.''")
    case True
    with assms(2,3) show ?thesis by (intro contained_wild) auto
  next
    case False
    with assms(2,3) show ?thesis by (auto simp: contained_def)
  qed
  ultimately show ?thesis by (simp add: clean_inv_def candidate_ok_def)
qed

lemma process_line_snd:
  fixes d l st
  defines "n \<equiv> rstrip_chars ''.'' (strip (lower (strip l)))"
  defines "nfc \<equiv> (if startswith n ''*.'' then drop 2 n else n)"
  shows "snd (process_line d l st) = snd st \<or>
         (snd (process_line d l st) =
            snd st @ [(n, \<lparr>host = n, wildcard = startswith n ''*.'', resolves = False,
                            records = [], confidence = ''medium''\<rparr>)] \<and>
          map_of (snd st) n = None \<and> HOSTNAME_REGEX_match nfc \<and>
          \<not> (nfc \<noteq> lower d \<and> \<not> endswith nfc (''.'' @ lower d)))"
proof -
  have eq: "process_line d l st =
     (if strip l = [] then st
      else if str_in '' '' (strip l) \<or> str_in ''@'' (strip l) \<or> str_in '' - '' (strip l)
      then (insert (strip l) (fst st), snd st)
      else if \<not> HOSTNAME_REGEX_match nfc then (insert (strip l) (fst st), snd st)
      else if nfc \<noteq> lower d \<and> \<not> endswith nfc (''.'' @ lower d)
      then (insert (strip l) (fst st), snd st)
      else if map_of (snd st) n = None
      then (insert (strip l) (fst st),
            snd st @ [(n, \<lparr>host = n, wildcard = startswith n ''*.'', resolves = False,
                            records = [], confidence = ''medium''\<rparr>)])
      else (insert (strip l) (fst st), snd st))"
    by (simp only: process_line_def Let_def n_def nfc_def)
  show ?thesis
    unfolding eq by (simp only: snd_conv if_distrib[of snd] split: if_split) blast
qed

lemma process_line_inv:
  assumes "list_all (clean_inv d) (snd st)"
  shows "list_all (clean_inv d) (snd (process_line d l st))"
  using process_line_snd[of d l st] assms new_entry_inv[OF refl refl, of "strip l" d]
  by (elim disjE conjE) simp_all

lemma fold_inv:
  assumes "\<And>x s. Q s \<Longrightarrow> Q (f x s)" and "Q s"
  shows "Q (fold f xs s)"
  using assms(2) by (induction xs arbitrary: s) (simp_all add: assms(1))

lemma process_entry_inv:
  assumes "list_all (clean_inv d) (snd st)"
  shows "list_all (clean_inv d) (snd (process_entry d en st))"
  unfolding process_entry_def Let_def
  using assms by (auto intro!: fold_inv[where Q = "\<lambda>s. list_all (clean_inv d) (snd s)"] process_line_inv)

lemma extract_inv: "list_all (clean_inv d) (snd (extract_and_clean_subdomains raw d))"
  unfolding extract_and_clean_subdomains_def Let_def snd_conv
  by (rule fold_inv[where Q = "\<lambda>s. list_all (clean_inv d) (snd s)"]) (simp_all add: process_entry_inv)

lemma process_line_distinct:
  assumes "distinct (map fst (snd st))"
  shows "distinct (map fst (snd (process_line d l st)))"
  using process_line_snd[of d l st] assms
  by (elim disjE conjE) (simp_all add: map_of_eq_None_iff)

lemma process_entry_distinct:
  assumes "distinct (map fst (snd st))"
  shows "distinct (map fst (snd (process_entry d en st)))"
  unfolding process_entry_def Let_def
  using assms
  by (auto intro!: fold_inv[where Q = "\<lambda>s. distinct (map fst (snd s))"] process_line_distinct)

lemma extract_distinct: "distinct (map fst (snd (extract_and_clean_subdomains raw d)))"
  unfolding extract_and_clean_subdomains_def Let_def snd_conv
  by (rule fold_inv[where Q = "\<lambda>s. distinct (map fst (snd s))"])
     (simp_all add: process_entry_distinct)

lemma process_line_extends: "\<exists>ys. snd (process_line d l st) = snd st @ ys"
  using process_line_snd[of d l st] by auto

lemma split_on_nonempty: "split_on sep s \<noteq> []"
  by (induction s) (auto simp: Let_def)

lemma hd_split_on: "hd (split_on sep s) = takeWhile (\<lambda>c. c \<noteq> sep) s"
  by (induction s) (auto simp: Let_def)

lemma set_hd_split_on: "set (hd (split_on sep s)) \<subseteq> set s"
  unfolding hd_split_on by (auto dest: set_takeWhileD)

lemma set_replace_str: "set (replace_str old new s) \<subseteq> set s \<union> set new"
proof (induction old new s rule: replace_str.induct)
  case (1 old new s)
  show ?case
  proof (cases "old = []")
    case True
    then show ?thesis by (subst replace_str.simps) auto
  next
    case o: False
    show ?thesis
    proof (cases "s = []")
      case True
      with o show ?thesis by (subst replace_str.simps) simp
    next
      case s: False
      show ?thesis
      proof (cases "startswith s old")
        case True
        have "set (drop (length old) s) \<subseteq> set s" by (rule set_drop_subset)
        with "1.IH"(1)[OF o s True] o s True show ?thesis
          by (subst replace_str.simps) auto
      next
        case False
        have "set (tl s) \<subseteq> set s" using s by (cases s) auto
        moreover have "hd s \<in> set s" using s by simp
        ultimately show ?thesis using "1.IH"(2)[OF o s False] o s False
          by (subst replace_str.simps) auto
      qed
    qed
  qed
qed

lemma set_replace_del: "set (replace_str old [] s) \<subseteq> set s"
  using set_replace_str[of old "[]" s] by simp

lemma strip_url_chars:
  "set (hd (split_on c2 (hd (split_on c1 (replace_str o1 [] (replace_str o2 [] s)))))) \<subseteq> set s"
  using set_hd_split_on set_replace_del by (meson subset_trans)

lemma sanitize_hostname_lower:
  assumes "sanitize_hostname v = Some c"
  shows "\<forall>x\<in>set c. \<not> is_upper x"
proof -
  from assms have c: "c = hd (split_on CHR '':'' (hd (split_on CHR ''/''
      (replace_str ''http://'' [] (replace_str ''https://'' [] (lower (strip v)))))))"
    by (simp add: sanitize_hostname_def Let_def split: if_splits)
  have "set c \<subseteq> set (lower (strip v))" unfolding c by (rule strip_url_chars)
  then show ?thesis by (auto simp: lower_def lower_char_not_upper)
qed

lemma normalize_request_lower:
  assumes "normalize_request req = Inr d"
  shows "lower d = d"
proof -
  from assms obtain c where s: "sanitize_hostname (lower (strip (case req of None \<Rightarrow> [] | Some d \<Rightarrow> d))) = Some c"
    and d: "d = hd (split_on CHR '':'' (hd (split_on CHR ''/''
      (replace_str ''https://'' [] (replace_str ''http://'' [] c)))))"
    by (auto simp: normalize_request_def Let_def split: if_splits option.splits)
  have "set d \<subseteq> set c" unfolding d by (rule strip_url_chars)
  with sanitize_hostname_lower[OF s] show ?thesis by (auto simp: lower_id_iff)
qed

lemma host_verify_one: "host (fst (verify_one e c)) = host c"
  by (simp add: verify_one_def Let_def)

lemma fresh_report_clean:
  assumes "x \<in> set (subdomains (fst (fresh_report e d raw)))"
  shows "lower (host x) = host x \<and> contained (lower d) (host x)"
proof -
  from assms obtain kv where kv: "kv \<in> set (snd (extract_and_clean_subdomains raw d))"
    and h: "host x = host (snd kv)"
    by (auto simp: fresh_report_def Let_def host_verify_one)
  from kv extract_inv[of d raw] have "clean_inv d kv"
    by (simp add: list_all_iff)
  with h show ?thesis unfolding clean_inv_def candidate_ok_def by auto
qed

lemma fresh_report_sorted: "sorted (map host (subdomains (fst (fresh_report e d raw))))"
  by (simp add: fresh_report_def Let_def)

lemma fresh_report_ci_sorted: "sorted_wrt ci_le (map host (subdomains (fst (fresh_report e d raw))))"
proof -
  have "sorted_wrt (\<lambda>a b. host a \<le> host b) (subdomains (fst (fresh_report e d raw)))"
    using fresh_report_sorted[of e d raw] by (simp add: sorted_wrt_map)
  then have "sorted_wrt (\<lambda>a b. ci_le (host a) (host b)) (subdomains (fst (fresh_report e d raw)))"
    by (rule sorted_wrt_mono_rel[rotated]) (simp add: ci_le_def fresh_report_clean)
  then show ?thesis by (simp add: sorted_wrt_map)
qed

lemma endpoint_fetched:
  assumes "normalize_request req = Inr d"
    and "cache_lookup e (load_cache (cache_file w)) (''subdomains_'' @ d) = Miss"
    and "http_get e (''https://crt.sh/?q=%.'' @ d @ ''&output=json'') = Fetched raw"
  shows "fst (subdomain_finder_enhanced e req w) = (JReport (fst (fresh_report (dns e) d raw)), 200)"
  using assms by (simp add: subdomain_finder_enhanced_def Let_def)

text \<open>The tasks are collected as they complete. Their hosts are pairwise distinct, so
  sorting by host gives the same list for every order of collection.\<close>

lemma filter_key_single:
  assumes "distinct (map f xs)" and "k \<in> set xs"
  shows "filter (\<lambda>x. f k = f x) xs = [k]"
  using assms
proof (induction xs)
  case Nil
  then show ?case by simp
next
  case (Cons a xs)
  show ?case
  proof (cases "k = a")
    case True
    with Cons.prems have "\<forall>x\<in>set xs. f a \<noteq> f x" by auto
    then have "filter (\<lambda>x. f a = f x) xs = []" by (simp add: filter_empty_conv)
    with True show ?thesis by simp
  next
    case False
    with Cons.prems have k: "k \<in> set xs" by simp
    from Cons.prems(1) have "f a \<notin> f ` set xs" by simp
    with k have "f k \<noteq> f a" by (metis imageI)
    with k Cons.IH Cons.prems show ?thesis by simp
  qed
qed

lemma sort_key_order_irrelevant:
  assumes "mset ys = mset xs" and "distinct (map f xs)"
  shows "sort_key f ys = sort_key f xs"
proof (rule properties_for_sort_key)
  show "mset (sort_key f xs) = mset ys" using assms(1) by simp
  show "sorted (map f (sort_key f xs))" by simp
  fix k assume "k \<in> set (sort_key f xs)"
  then have kx: "k \<in> set xs" by simp
  then have ky: "k \<in> set ys" using assms(1) by (metis set_mset_mset)
  have "mset (map f ys) = mset (map f xs)" using assms(1) by simp
  then have dy: "distinct (map f ys)"
    using assms(2) by (metis distinct_count_atmost_1 set_mset_mset)
  have "filter (\<lambda>x. f k = f x) ys = [k]"
    using dy ky by (rule filter_key_single)
  moreover have "filter (\<lambda>x. f k = f x) (sort_key f xs) = [k]"
    using kx assms(2) by (intro filter_key_single) (simp_all add: distinct_map)
  ultimately show "filter (\<lambda>x. f k = f x) (sort_key f xs) = filter (\<lambda>x. f k = f x) ys"
    by simp
qed

lemma verified_hosts_distinct:
  "distinct (map host (map fst (map (verify_one e) (map snd (snd (extract_and_clean_subdomains raw d))))))"
proof -
  let ?cl = "snd (extract_and_clean_subdomains raw d)"
  have "map host (map fst (map (verify_one e) (map snd ?cl))) = map (\<lambda>kv. host (snd kv)) ?cl"
    by (simp add: host_verify_one comp_def)
  also have "\<dots> = map fst ?cl"
    using extract_inv[of d raw] by (auto simp: list_all_iff clean_inv_def candidate_ok_def)
  finally have eq: "map host (map fst (map (verify_one e) (map snd ?cl))) = map fst ?cl" .
  show ?thesis unfolding eq by (rule extract_distinct)
qed

lemma collection_order_irrelevant:
  assumes "mset ys = mset (map fst (map (verify_one e) (map snd (snd (extract_and_clean_subdomains raw d)))))"
  shows "sort_key host ys = subdomains (fst (fresh_report e d raw))"
  using sort_key_order_irrelevant[OF assms verified_hosts_distinct]
  by (simp add: fresh_report_def Let_def comp_assoc)

lemma is_ascii_digit_code:
  "is_ascii_digit c = (48 \<le> (of_char c :: nat) \<and> (of_char c :: nat) \<le> 57)"
  by (simp add: is_ascii_digit_def less_eq_char_def)

lemma digit_back: "c \<in> set ''0123456789'' \<Longrightarrow> is_ascii_digit c"
  unfolding is_ascii_digit_code by (elim set_ConsD[elim_format] disjE) auto

lemma digit_fwd: "is_ascii_digit c \<Longrightarrow> c \<in> set ''0123456789''"
proof -
  assume "is_ascii_digit c"
  then have "(of_char c :: nat) \<in> {48, 49, 50, 51, 52, 53, 54, 55, 56, 57}"
    unfolding is_ascii_digit_code by simp arith
  then consider "of_char c = (of_char CHR ''0'' :: nat)" | "of_char c = (of_char CHR ''1'' :: nat)"
    | "of_char c = (of_char CHR ''2'' :: nat)" | "of_char c = (of_char CHR ''3'' :: nat)"
    | "of_char c = (of_char CHR ''4'' :: nat)" | "of_char c = (of_char CHR ''5'' :: nat)"
    | "of_char c = (of_char CHR ''6'' :: nat)" | "of_char c = (of_char CHR ''7'' :: nat)"
    | "of_char c = (of_char CHR ''8'' :: nat)" | "of_char c = (of_char CHR ''9'' :: nat)"
    by auto
  then show ?thesis
    by cases (simp_all only: of_char_eq_iff list.set insert_iff simp_thms)
qed

lemma is_ascii_digit_iff: "is_ascii_digit c = (c \<in> set ''0123456789'')"
  using digit_back digit_fwd by blast

lemma is_digit_iff:
  "is_digit c = (c \<in> set (''0123456789'' @ [CHR 0xB2, CHR 0xB3, CHR 0xB9]))"
  unfolding is_digit_def is_ascii_digit_iff by (simp only: set_append Un_iff)

lemma isdigit_all_isdigit: "isdigit s = all_isdigit s"
proof -
  have "is_digit = (\<lambda>c. c \<in> set (''0123456789'' @ [CHR 0xB2, CHR 0xB3, CHR 0xB9]))"
    by (rule ext) (rule is_digit_iff)
  then show ?thesis by (simp only: isdigit_def all_isdigit_def)
qed

text \<open>On an ASCII string \<^verbatim>\<open>str.isdigit\<close> is the test for decimal digits, so on a host whose
  first label is ASCII, as every host that matched the hostname pattern is, the scorer
  is the function of the specification.\<close>

lemma superscript_not_ascii:
  "is_ascii c \<Longrightarrow> c \<notin> set [CHR 0xB2, CHR 0xB3, CHR 0xB9]"
  by (auto simp: is_ascii_def)

lemma isdigit_ascii:
  assumes "list_all is_ascii s"
  shows "isdigit s = all_digits s"
proof -
  have "list_all is_digit s = list_all (\<lambda>c. c \<in> set ''0123456789'') s"
    using assms superscript_not_ascii
    unfolding list_all_iff is_digit_def is_ascii_digit_iff by blast
  then show ?thesis by (simp only: isdigit_def all_digits_def)
qed

lemma calculate_confidence_ascii:
  assumes "list_all is_ascii (first_label h)"
  shows "calculate_confidence res h = confidence_spec res h"
  using isdigit_ascii[OF assms]
  by (simp add: calculate_confidence_def confidence_spec_def Let_def split_on_nonempty
        hd_split_on first_label_def)

section \<open>Properties\<close>

subsection \<open>The end-to-end scenario\<close>

text \<open>
  C1 (as stated): on the scenario entries and the domain \<^verbatim>\<open>example.com\<close> extraction
  returns \<^verbatim>\<open>total_raw = 3\<close> and the keys www.example.com, mail.example.com and
  *.example.com. The first entry holds two lines, so four distinct non-empty lines are
  seen before any filtering, and the count is not 3.
\<close>

theorem scenario_total_raw_not_3:
  "\<not> (fst (extract_and_clean_subdomains scenario_entries ''example.com'') = 3 \<and>
      set (map fst (snd (extract_and_clean_subdomains scenario_entries ''example.com''))) =
        {''www.example.com'', ''mail.example.com'', ''*.example.com''})"
  by code_simp

text \<open>
  C1 (amended): on the scenario entries and the domain \<^verbatim>\<open>example.com\<close> extraction
  returns \<^verbatim>\<open>total_raw = 4\<close>, the number of distinct non-empty lines, and the cleaned
  map has exactly the keys www.example.com, mail.example.com and *.example.com, in this
  order of insertion; the line with spaces is counted and then discarded.
\<close>

theorem scenario_extraction:
  "fst (extract_and_clean_subdomains scenario_entries ''example.com'') = 4 \<and>
   map fst (snd (extract_and_clean_subdomains scenario_entries ''example.com'')) =
     [''www.example.com'', ''mail.example.com'', ''*.example.com''] \<and>
   set (map fst (snd (extract_and_clean_subdomains scenario_entries ''example.com''))) =
     {''www.example.com'', ''mail.example.com'', ''*.example.com''}"
  by code_simp

subsection \<open>Wildcard hosts\<close>

text \<open>
  C2: for a candidate whose host starts with \<^verbatim>\<open>*.\<close>, whatever the resolver would
  answer, the verification task sets \<^verbatim>\<open>resolves\<close> to false, \<^verbatim>\<open>records\<close> to the empty
  list and \<^verbatim>\<open>confidence\<close> to medium, and \<^verbatim>\<open>verify_dns\<close> issues no query.
\<close>

theorem wildcard_never_verified:
  assumes "startswith (host c) ''*.''"
  shows "verify_one env c =
           (c\<lparr>resolves := False, records := [], confidence := ''medium''\<rparr>, []) \<and>
         verify_dns env (host c) = ((False, []), [])"
  using assms by (simp add: verify_one_def verify_dns_def calculate_confidence_def)

theorem wildcard_never_verified_witness:
  "startswith ''*.example.com'' ''*.'' \<and>
   verify_one \<lparr>resolver_ok = True, resolve_ok = (\<lambda>h t. True)\<rparr>
     \<lparr>host = ''*.example.com'', wildcard = True, resolves = False, records = [],
      confidence = ''medium''\<rparr> =
     (\<lparr>host = ''*.example.com'', wildcard = True, resolves = False, records = [],
       confidence = ''medium''\<rparr>, [])"
  using wildcard_never_verified
    [of "\<lparr>host = ''*.example.com'', wildcard = True, resolves = False, records = [],
          confidence = ''medium''\<rparr>"
        "\<lparr>resolver_ok = True, resolve_ok = (\<lambda>h t. True)\<rparr>"]
  by (simp add: startswith_def)

subsection \<open>The three resolution attempts\<close>

text \<open>
  C3: for a host that does not start with \<^verbatim>\<open>*.\<close>, once the resolver is constructed,
  \<^verbatim>\<open>verify_dns\<close> makes the three attempts A, AAAA, CNAME in this order whatever their
  outcomes; \<^verbatim>\<open>resolves\<close> is true exactly when one of them succeeded, and \<^verbatim>\<open>records\<close>
  is the list of the types that succeeded, in the order A, AAAA, CNAME, without
  repetition. A failed attempt stops nothing: the later attempts are still made.
\<close>

theorem verify_dns_attempts:
  assumes "\<not> startswith h ''*.''" and "resolver_ok env"
  shows "fst (fst (verify_dns env h)) =
           (resolve_ok env h ''A'' \<or> resolve_ok env h ''AAAA'' \<or> resolve_ok env h ''CNAME'') \<and>
         snd (fst (verify_dns env h)) =
           filter (resolve_ok env h) [''A'', ''AAAA'', ''CNAME''] \<and>
         distinct (snd (fst (verify_dns env h))) \<and>
         snd (verify_dns env h) = [(h, ''A''), (h, ''AAAA''), (h, ''CNAME'')]"
  using assms by (simp add: verify_dns_def Let_def)

theorem verify_dns_attempts_witness:
  "\<not> startswith ''www.example.com'' ''*.'' \<and>
   verify_dns \<lparr>resolver_ok = True, resolve_ok = (\<lambda>h t. t = ''AAAA'')\<rparr> ''www.example.com'' =
     ((True, [''AAAA'']),
      [(''www.example.com'', ''A''), (''www.example.com'', ''AAAA''),
       (''www.example.com'', ''CNAME'')])"
  using verify_dns_attempts
    [of "''www.example.com''" "\<lparr>resolver_ok = True, resolve_ok = (\<lambda>h t. t = ''AAAA'')\<rparr>"]
  by (simp add: startswith_def prod_eq_iff)

subsection \<open>The freshness boundary\<close>

text \<open>
  C5: when the stored timestamp parses to the naive time \<open>T\<close>, the entry is valid at
  \<open>T\<close> plus 23 hours 59 minutes and not valid at \<open>T\<close> plus 24 hours 1 minute; at any
  time \<open>t\<close> it is valid exactly when \<open>t - T\<close> is strictly less than 24 hours.
\<close>

theorem cache_freshness_boundary:
  assumes "parse ts = Some (Naive T)"
  shows "is_cache_valid parse (T + timedelta 23 59) ts \<and>
         \<not> is_cache_valid parse (T + timedelta 24 1) ts \<and>
         is_cache_valid parse t ts = (t - T < timedelta 24 0)"
  using assms by (simp add: is_cache_valid_def timedelta_def CACHE_DURATION_HOURS_def)

theorem cache_freshness_boundary_witness:
  "is_cache_valid (\<lambda>s. Some (Naive 1700000000000000)) (1700000000000000 + timedelta 23 59)
     ''2023-11-14T22:13:20'' \<and>
   \<not> is_cache_valid (\<lambda>s. Some (Naive 1700000000000000)) (1700000000000000 + timedelta 24 1)
     ''2023-11-14T22:13:20'' \<and>
   \<not> is_cache_valid (\<lambda>s. Some (Naive 1700000000000000)) (1700000000000000 + timedelta 24 0)
     ''2023-11-14T22:13:20''"
  using cache_freshness_boundary
    [of "\<lambda>s. Some (Naive 1700000000000000)" "''2023-11-14T22:13:20''" 1700000000000000
        "1700000000000000 + timedelta 24 0"]
  by simp

subsection \<open>The confidence scorer\<close>

text \<open>
  C4 (as stated): for every host, with digits read as the decimal digits 0 to 9,
  \<^verbatim>\<open>calculate_confidence\<close> is the function of the specification. It is not: for the
  host \<open>superscript_host\<close> that does not resolve, \<^verbatim>\<open>str.isdigit\<close> holds of the first label
  and the scorer returns low, where the specification's function returns medium.
\<close>

theorem superscript_label_scored_low:
  "calculate_confidence False superscript_host = ''low'' \<and>
   confidence_spec False superscript_host = ''medium'' \<and>
   calculate_confidence False superscript_host \<noteq> confidence_spec False superscript_host"
  by code_simp

text \<open>
  C4 (amended): \<^verbatim>\<open>calculate_confidence\<close> is the pure function that returns medium for a
  host that starts with \<^verbatim>\<open>*.\<close>; otherwise high when the host resolves; otherwise low when
  the first dot-separated label has at least one character and each of its characters is
  a digit for \<^verbatim>\<open>str.isdigit\<close>, that is one of 0 to 9 or one of the superscript digits
  U+00B2, U+00B3, U+00B9; otherwise medium.
\<close>

theorem calculate_confidence_isdigit:
  "calculate_confidence res h = confidence_isdigit res h"
  by (simp add: calculate_confidence_def confidence_isdigit_def Let_def split_on_nonempty
        hd_split_on first_label_def isdigit_all_isdigit)

subsection \<open>The candidate map\<close>

text \<open>
  C10: in the map returned by extraction every key is the host of the entry stored under
  it, every host is lowercase and has no trailing dot, and the wildcard flag is true
  exactly when the host starts with \<^verbatim>\<open>*.\<close>; the keys are pairwise distinct, and one line
  of input leaves every entry already in the map as it is, adding at most new entries
  behind them.
\<close>

theorem candidate_map_invariant:
  "list_all candidate_ok (snd (extract_and_clean_subdomains raw d)) \<and>
   distinct (map fst (snd (extract_and_clean_subdomains raw d))) \<and>
   (\<exists>ys. snd (process_line d l st) = snd st @ ys)"
proof -
  have "list_all candidate_ok (snd (extract_and_clean_subdomains raw d))"
    using extract_inv[of d raw] by (simp add: list_all_iff clean_inv_def)
  then show ?thesis
    using extract_distinct[of raw d] process_line_extends[of d l st] by simp
qed

subsection \<open>The route on a cache miss\<close>

text \<open>
  C6: when the request normalises to the domain \<open>d\<close>, the cache has no fresh entry for it
  and the fetch from crt.sh succeeds, the route answers 200 with a report for \<open>d\<close> in which
  every host is \<open>d\<close> itself or ends with a dot followed by \<open>d\<close>; a wildcard host satisfies
  this with its leading \<^verbatim>\<open>*.\<close> kept.
\<close>

theorem returned_hosts_contained:
  assumes "normalize_request req = Inr d"
    and "cache_lookup e (load_cache (cache_file w)) (''subdomains_'' @ d) = Miss"
    and "http_get e (''https://crt.sh/?q=%.'' @ d @ ''&output=json'') = Fetched raw"
  shows "\<exists>r. fst (subdomain_finder_enhanced e req w) = (JReport r, 200) \<and> domain r = d \<and>
             list_all (\<lambda>s. contained (domain r) (host s)) (subdomains r)"
proof -
  let ?r = "fst (fresh_report (dns e) d raw)"
  have "fst (subdomain_finder_enhanced e req w) = (JReport ?r, 200)"
    using assms by (rule endpoint_fetched)
  moreover have "domain ?r = d"
    by (simp add: fresh_report_def Let_def)
  moreover have "list_all (\<lambda>s. contained d (host s)) (subdomains ?r)"
    using fresh_report_clean[of _ "dns e" d raw] normalize_request_lower[OF assms(1)]
    by (simp add: list_all_iff)
  ultimately show ?thesis by simp
qed

theorem returned_hosts_contained_witness:
  "\<exists>r. fst (subdomain_finder_enhanced demo_env (Some ''example.com'') demo_world) = (JReport r, 200) \<and>
       domain r = ''example.com'' \<and>
       list_all (\<lambda>s. contained (domain r) (host s)) (subdomains r)"
proof -
  have h1: "normalize_request (Some ''example.com'') = Inr ''example.com''"
    by code_simp
  have h2: "cache_lookup demo_env (load_cache (cache_file demo_world))
              (''subdomains_'' @ ''example.com'') = Miss"
    by (simp add: cache_lookup_def load_cache_def demo_world_def)
  have h3: "http_get demo_env (''https://crt.sh/?q=%.'' @ ''example.com'' @ ''&output=json'')
              = Fetched scenario_entries"
    by (simp add: demo_env_def)
  show ?thesis
    by (rule returned_hosts_contained[OF h1 h2 h3])
qed

text \<open>
  C9: under the same conditions the hosts of the returned report are in non-decreasing
  order for the lexicographic order that ignores case, and \<^verbatim>\<open>total_clean\<close> is the length
  of \<^verbatim>\<open>subdomains\<close>; this holds for the empty candidate set as well.
\<close>

theorem returned_report_sorted:
  assumes "normalize_request req = Inr d"
    and "cache_lookup e (load_cache (cache_file w)) (''subdomains_'' @ d) = Miss"
    and "http_get e (''https://crt.sh/?q=%.'' @ d @ ''&output=json'') = Fetched raw"
  shows "\<exists>r. fst (subdomain_finder_enhanced e req w) = (JReport r, 200) \<and>
             sorted_wrt ci_le (map host (subdomains r)) \<and>
             total_clean r = length (subdomains r)"
proof -
  let ?r = "fst (fresh_report (dns e) d raw)"
  have "fst (subdomain_finder_enhanced e req w) = (JReport ?r, 200)"
    using assms by (rule endpoint_fetched)
  moreover have "sorted_wrt ci_le (map host (subdomains ?r))"
    by (rule fresh_report_ci_sorted)
  moreover have "total_clean ?r = length (subdomains ?r)"
    by (simp add: fresh_report_def Let_def)
  ultimately show ?thesis by simp
qed

theorem returned_report_sorted_witness:
  "\<exists>r. fst (subdomain_finder_enhanced demo_env (Some '' Example.COM '') demo_world) = (JReport r, 200) \<and>
       sorted_wrt ci_le (map host (subdomains r)) \<and>
       total_clean r = length (subdomains r)"
proof -
  have h1: "normalize_request (Some '' Example.COM '') = Inr ''example.com''"
    by code_simp
  have h2: "cache_lookup demo_env (load_cache (cache_file demo_world))
              (''subdomains_'' @ ''example.com'') = Miss"
    by (simp add: cache_lookup_def load_cache_def demo_world_def)
  have h3: "http_get demo_env (''https://crt.sh/?q=%.'' @ ''example.com'' @ ''&output=json'')
              = Fetched scenario_entries"
    by (simp add: demo_env_def)
  show ?thesis
    by (rule returned_report_sorted[OF h1 h2 h3])
qed

subsection \<open>A failed fetch\<close>

text \<open>
  C7: when the request normalises to \<open>d\<close>, the cache has no fresh entry for it and the
  fetch from crt.sh raises (the source cannot be reached, the status is an error status,
  or the body is not JSON), the route answers 500 with the zeroed report for \<open>d\<close> and an
  error message; the URL was fetched once, no DNS query was issued and the cache file is
  as it was.
\<close>

theorem fetch_failure_response:
  assumes "normalize_request req = Inr d"
    and "cache_lookup e (load_cache (cache_file w)) (''subdomains_'' @ d) = Miss"
    and "http_get e (''https://crt.sh/?q=%.'' @ d @ ''&output=json'') = FetchRaised msg"
  shows "subdomain_finder_enhanced e req w =
           ((JReportError \<lparr>domain = d, total_raw = 0, total_clean = 0, subdomains = []\<rparr>
               (''Failed to fetch from crt.sh: '' @ msg), 500),
            w\<lparr>fetch_log := fetch_log w @ [''https://crt.sh/?q=%.'' @ d @ ''&output=json'']\<rparr>)"
  using assms by (simp add: subdomain_finder_enhanced_def Let_def)

theorem fetch_failure_response_witness:
  "subdomain_finder_enhanced demo_env (Some ''example.org'') demo_world =
     ((JReportError \<lparr>domain = ''example.org'', total_raw = 0, total_clean = 0, subdomains = []\<rparr>
         ''Failed to fetch from crt.sh: HTTPSConnectionPool: Max retries exceeded'', 500),
      \<lparr>cache_file = NoFile, fetch_log = [''https://crt.sh/?q=%.example.org&output=json''],
       dns_log = []\<rparr>)"
proof -
  have h1: "normalize_request (Some ''example.org'') = Inr ''example.org''"
    by code_simp
  have h2: "cache_lookup demo_env (load_cache (cache_file demo_world))
              (''subdomains_'' @ ''example.org'') = Miss"
    by (simp add: cache_lookup_def load_cache_def demo_world_def)
  have h3: "http_get demo_env (''https://crt.sh/?q=%.'' @ ''example.org'' @ ''&output=json'')
              = FetchRaised ''HTTPSConnectionPool: Max retries exceeded''"
    by (simp add: demo_env_def)
  show ?thesis
    using fetch_failure_response[OF h1 h2 h3] by (simp add: demo_world_def)
qed

subsection \<open>A cache hit\<close>

text \<open>
  C8: when the request normalises to \<open>d\<close> and the cache holds under \<^verbatim>\<open>subdomains_d\<close> an
  entry whose timestamp parses to a naive time less than 24 hours before the clock, the
  route answers 200 with the stored report as it is, and the world is unchanged: nothing
  was fetched, no DNS query was issued, and the cache file was not written.
\<close>

theorem cache_hit_returns_stored:
  assumes "normalize_request req = Inr d"
    and "load_cache (cache_file w) (''subdomains_'' @ d) = Some entry"
    and "timestamp entry = Some ts"
    and "fromisoformat e ts = Some (Naive T)"
    and "now e - T < timedelta 24 0"
    and "data entry = Some stored"
  shows "subdomain_finder_enhanced e req w = ((JReport stored, 200), w)"
  using assms
  by (simp add: subdomain_finder_enhanced_def Let_def cache_lookup_def is_cache_valid_def
        CACHE_DURATION_HOURS_def)

theorem cache_hit_returns_stored_witness:
  "subdomain_finder_enhanced demo_env (Some ''example.com'') demo_cached_world =
     ((JReport demo_stored, 200), demo_cached_world)"
proof -
  have h1: "normalize_request (Some ''example.com'') = Inr ''example.com''"
    by code_simp
  have h2: "load_cache (cache_file demo_cached_world) (''subdomains_'' @ ''example.com'') =
              Some \<lparr>timestamp = Some ''2023-11-14T22:13:20'', data = Some demo_stored\<rparr>"
    by (simp add: load_cache_def demo_cached_world_def)
  have h3: "fromisoformat demo_env ''2023-11-14T22:13:20'' = Some (Naive 1700000000000000)"
    by (simp add: demo_env_def)
  have h4: "now demo_env - 1700000000000000 < timedelta 24 0"
    by (simp add: demo_env_def timedelta_def)
  show ?thesis
    using cache_hit_returns_stored[OF h1 h2 _ h3 h4] by simp
qed

end
